theory Spec2Isabelle
  imports Main "HOL-Library.Sublist"
begin

section \<open>The staged-file command planner\<close>

text \<open>
  The planner is the default export of the lint-staged configuration module: the function
  \<open>processStagedFiles\<close>, with its helper \<open>getFilesForPatterns\<close>. It reads two things
  from its environment: the function \<open>micromatch\<close> of the npm package of that name, and
  the working directory \<open>process.cwd()\<close>. Both are explicit here: the working directory
  is the argument \<open>cwd\<close>, and the glob semantics of micromatch is the argument
  \<open>test\<close> (see below). Paths and commands are JavaScript strings, modelled as
  \<open>string\<close>.

  The planner is modelled twice. The first model, under the names of the source, takes
  the working directory as a string and strings as unbounded: it describes which plan is
  built. The second model, with the suffix \<open>_rt\<close>, adds the two ways in which the
  runtime makes the same code throw: \<open>process.cwd()\<close> throws \<open>ENOENT\<close> when the
  working directory no longer exists, and building a string longer than the engine
  allows throws a \<open>RangeError\<close>. The second model is what the statements about
  failure are made of; where the runtime does not fail, the two agree.
\<close>

subsection \<open>String and array primitives\<close>

text \<open>
  \<open>s.replace(pat, rep)\<close> with a string pattern: the first occurrence of \<open>pat\<close> in
  \<open>s\<close>, scanning from the left, is replaced by \<open>rep\<close>; a string without an occurrence
  is returned as it is. The empty pattern occurs at position 0. (The replacement used by
  the planner is \<open>"."\<close>, which has no \<open>$\<close> substitution pattern.)
\<close>

fun replace :: "string \<Rightarrow> string \<Rightarrow> string \<Rightarrow> string" where
  "replace [] pat rep = (if pat = [] then rep else [])"
| "replace (c # cs) pat rep =
     (if prefix pat (c # cs) then rep @ drop (length pat) (c # cs)
      else c # replace cs pat rep)"

text \<open>\<open>xs.join(sep)\<close> on an array of strings.\<close>

fun join :: "string list \<Rightarrow> string \<Rightarrow> string" where
  "join [] sep = []"
| "join [x] sep = x"
| "join (x # y # ys) sep = x @ sep @ join (y # ys) sep"

subsection \<open>micromatch\<close>

text \<open>
  \<open>micromatch(list, patterns)\<close> is a dependency of the repository, not part of it. What
  the planner relies on is modelled in two layers.

  \<^item> The decision whether one path matches one glob is the parameter
    \<open>test glob path\<close>; the general results below hold for every such function.
  \<^item> The function around it is written out: each pattern is compiled in turn, which
    throws a \<open>TypeError\<close> for the empty string and a \<open>SyntaxError\<close> for a pattern
    longer than 65536 characters; every item of the list is tested against the compiled
    pattern, and a matching item is added to a JavaScript \<open>Set\<close>, which keeps the
    first insertion of each value, in insertion order. The result is the content of
    that set.

  This covers groups of positive patterns. A negated glob (a leading \<open>!\<close>) makes
  micromatch remove paths from the result, and the regular expression of a very long
  pattern is rejected by the engine at its first use; neither is modelled, and the
  planner passes no such pattern. The statements that describe which paths are returned
  are therefore made for groups of the planner's own globs.
\<close>

datatype error = TypeError | SyntaxError | ENOENT | RangeError

type_synonym matcher = "string \<Rightarrow> string \<Rightarrow> bool"

definition MAX_LENGTH :: nat where
  "MAX_LENGTH = 1024 * 64"

definition picomatch :: "matcher \<Rightarrow> string \<Rightarrow> error + (string \<Rightarrow> bool)" where
  "picomatch test glob =
     (if glob = [] then Inl TypeError
      else if MAX_LENGTH < length glob then Inl SyntaxError
      else Inr (test glob))"

definition set_add :: "string list \<Rightarrow> string \<Rightarrow> string list" where
  "set_add keep item = (if item \<in> set keep then keep else keep @ [item])"

definition keep_matches :: "(string \<Rightarrow> bool) \<Rightarrow> string list \<Rightarrow> string list \<Rightarrow> string list" where
  "keep_matches isMatch list keep =
     fold (\<lambda>item keep. if isMatch item then set_add keep item else keep) list keep"

fun micromatch_from ::
  "matcher \<Rightarrow> string list \<Rightarrow> string list \<Rightarrow> string list \<Rightarrow> error + string list" where
  "micromatch_from test list [] keep = Inr keep"
| "micromatch_from test list (p # ps) keep =
     (case picomatch test p of
        Inl e \<Rightarrow> Inl e
      | Inr isMatch \<Rightarrow> micromatch_from test list ps (keep_matches isMatch list keep))"

definition micromatch :: "matcher \<Rightarrow> string list \<Rightarrow> string list \<Rightarrow> error + string list" where
  "micromatch test list patterns = micromatch_from test list patterns []"

subsection \<open>The planner\<close>

definition getFilesForPatterns ::
  "matcher \<Rightarrow> string \<Rightarrow> string list \<Rightarrow> string list \<Rightarrow> error + string list" where
  "getFilesForPatterns test cwd files patterns =
     (case micromatch test files patterns of
        Inl e \<Rightarrow> Inl e
      | Inr matched \<Rightarrow> Inr (map (\<lambda>path. replace path cwd ''.'') matched))"

definition cargo_fmt :: string where
  "cargo_fmt = ''cargo fmt --manifest-path=./src-tauri/Cargo.toml''"

definition cargo_check :: string where
  "cargo_check = ''cargo check --manifest-path=./src-tauri/Cargo.toml --color=always''"

definition tsc :: string where
  "tsc = ''pnpm tsc --pretty -p ./tsconfig.json''"

definition prettier :: "string list \<Rightarrow> string" where
  "prettier filesToPrettify = ''pnpm prettier --write '' @ join filesToPrettify '' ''"

definition eslint :: "string list \<Rightarrow> string" where
  "eslint filesToEslint = ''pnpm eslint '' @ join filesToEslint '' ''"

definition processStagedFiles :: "matcher \<Rightarrow> string \<Rightarrow> string list \<Rightarrow> error + string list" where
  "processStagedFiles test cwd stagedFiles =
     (case getFilesForPatterns test cwd stagedFiles [''**/*.{json,yaml}''] of
        Inl e \<Rightarrow> Inl e
      | Inr dataFiles \<Rightarrow>
     (case getFilesForPatterns test cwd stagedFiles [''**/*.html''] of
        Inl e \<Rightarrow> Inl e
      | Inr htmlFiles \<Rightarrow>
     (case getFilesForPatterns test cwd stagedFiles [''**/*.rs''] of
        Inl e \<Rightarrow> Inl e
      | Inr rustFiles \<Rightarrow>
     (case getFilesForPatterns test cwd stagedFiles [''**/*.{ts,tsx}''] of
        Inl e \<Rightarrow> Inl e
      | Inr typescriptFiles \<Rightarrow>
     (case getFilesForPatterns test cwd stagedFiles [''**/*.{js,cjs,mjs}''] of
        Inl e \<Rightarrow> Inl e
      | Inr javascriptFiles \<Rightarrow>
          (let filesToEslint = typescriptFiles @ javascriptFiles;
               filesToPrettify = dataFiles @ htmlFiles @ typescriptFiles @ javascriptFiles;
               commands = [];
               commands = (if length rustFiles \<noteq> 0
                           then commands @ [cargo_fmt] @ [cargo_check] else commands);
               commands = (if length filesToPrettify \<noteq> 0
                           then commands @ [prettier filesToPrettify] else commands);
               commands = (if length typescriptFiles \<noteq> 0
                           then commands @ [tsc] else commands);
               commands = (if length filesToEslint \<noteq> 0
                           then commands @ [eslint filesToEslint] else commands)
           in Inr commands))))))"

subsection \<open>The planner in its runtime\<close>







subsection \<open>The glob semantics of micromatch for the planner's patterns\<close>

text \<open>
  The concrete scenarios need to know which paths the five globs accept. The planner's
  globs have the shape \<open>**/*.ext\<close> or \<open>**/*.{ext,...,ext}\<close>, and \<open>glob_test\<close> gives
  micromatch's answer for globs of that shape, under its default options and with POSIX
  separators:
  \<^item> the empty path matches nothing, and a path equal to the glob itself matches;
  \<^item> the part after the last \<open>/\<close> (the whole path when there is none) must end with a
    dot and one of the extensions, must not begin with a dot (dot files are skipped
    unless the option \<open>dot\<close> is set) and must not begin with a line terminator;
  \<^item> the part before the last \<open>/\<close> may be empty; no segment of it begins with a dot,
    and it holds no line terminator;
  \<^item> a glob without braces also accepts one trailing \<open>/\<close> after the file name.

  A glob of another shape is outside this model and accepts only the path equal to it.
  Characters are bytes, so of the line terminators only LF and CR occur.
\<close>

definition word_char :: "char \<Rightarrow> bool" where
  "word_char c =
     (c \<in> set ''abcdefghijklmnopqrstuvwxyzABCDEFGHIJKLMNOPQRSTUVWXYZ0123456789_'')"

definition line_terminator :: "char \<Rightarrow> bool" where
  "line_terminator c = (c = CHR 0x0A \<or> c = CHR 0x0D)"

fun split_on :: "char \<Rightarrow> string \<Rightarrow> string list" where
  "split_on d [] = [[]]"
| "split_on d (c # cs) =
     (if c = d then [] # split_on d cs
      else (case split_on d cs of [] \<Rightarrow> [[c]] | w # ws \<Rightarrow> (c # w) # ws))"

record compiled =
  extensions :: "string list"
  trailing_slash :: bool

definition compile :: "string \<Rightarrow> compiled option" where
  "compile glob =
     (if \<not> prefix ''**/*.'' glob then None
      else let rest = drop 5 glob in
        if rest \<noteq> [] \<and> list_all word_char rest
        then Some \<lparr>extensions = [rest], trailing_slash = True\<rparr>
        else if 2 \<le> length rest \<and> hd rest = CHR ''{'' \<and> last rest = CHR ''}''
        then (let alts = split_on CHR '','' (butlast (tl rest)) in
              if 2 \<le> length alts \<and> list_all (\<lambda>a. a \<noteq> [] \<and> list_all word_char a) alts
              then Some \<lparr>extensions = alts, trailing_slash = False\<rparr>
              else None)
        else None)"

definition basename :: "string \<Rightarrow> string" where
  "basename s = rev (takeWhile (\<lambda>c. c \<noteq> CHR ''/'') (rev s))"

definition dirname :: "string \<Rightarrow> string" where
  "dirname s = rev (tl (dropWhile (\<lambda>c. c \<noteq> CHR ''/'') (rev s)))"

definition base_ok :: "string list \<Rightarrow> string \<Rightarrow> bool" where
  "base_ok exts base =
     (base \<noteq> [] \<and> hd base \<noteq> CHR ''.'' \<and> \<not> line_terminator (hd base) \<and>
      list_ex (\<lambda>e. suffix (CHR ''.'' # e) base) exts)"

definition dir_ok :: "string \<Rightarrow> bool" where
  "dir_ok dir =
     (list_all (\<lambda>c. \<not> line_terminator c) dir \<and> \<not> prefix ''.'' dir \<and> \<not> sublist ''/.'' dir)"

definition glob_test :: matcher where
  "glob_test glob input =
     (input \<noteq> [] \<and>
      (input = glob \<or>
       (case compile glob of
          None \<Rightarrow> False
        | Some re \<Rightarrow>
            (let s = (if trailing_slash re \<and> last input = CHR ''/'' then butlast input
                      else input)
             in base_ok (extensions re) (basename s) \<and>
                (if CHR ''/'' \<in> set s then dir_ok (dirname s) else True)))))"

subsection \<open>Vocabulary of the statements\<close>

text \<open>
  The five globs of the planner, in the order of its five classification calls.
\<close>

definition planner_globs :: "string list" where
  "planner_globs =
     [''**/*.{json,yaml}'', ''**/*.html'', ''**/*.rs'', ''**/*.{ts,tsx}'', ''**/*.{js,cjs,mjs}'']"

text \<open>
  A pattern that micromatch compiles without throwing: a non-empty string of at most
  \<open>MAX_LENGTH\<close> characters.
\<close>

definition valid_glob :: "string \<Rightarrow> bool" where
  "valid_glob glob = (glob \<noteq> [] \<and> length glob \<le> MAX_LENGTH)"


text \<open>
  The bucket of one glob as the planner computes it, and the command list the planner
  builds from the rust bucket, the format targets, the typed-script bucket and the lint
  targets. Both are derived forms, related to the planner by the lemmas
  \<open>getFilesForPatterns_single\<close> and \<open>processStagedFiles_commands\<close> below.
\<close>

definition bucket :: "matcher \<Rightarrow> string \<Rightarrow> string list \<Rightarrow> string \<Rightarrow> string list" where
  "bucket test cwd files glob =
     map (\<lambda>path. replace path cwd ''.'') (keep_matches (test glob) files [])"

definition commands_for ::
  "string list \<Rightarrow> string list \<Rightarrow> string list \<Rightarrow> string list \<Rightarrow> string list" where
  "commands_for rustFiles filesToPrettify typescriptFiles filesToEslint =
     (if rustFiles \<noteq> [] then [cargo_fmt, cargo_check] else []) @
     (if filesToPrettify \<noteq> [] then [prettier filesToPrettify] else []) @
     (if typescriptFiles \<noteq> [] then [tsc] else []) @
     (if filesToEslint \<noteq> [] then [eslint filesToEslint] else [])"


section \<open>Properties of the primitives\<close>

lemma replace_prefix: "prefix pat s \<Longrightarrow> replace s pat rep = rep @ drop (length pat) s"
  by (cases s) auto

lemma replace_no_occurrence: "\<not> sublist pat s \<Longrightarrow> replace s pat rep = s"
proof (induction s)
  case Nil
  then show ?case by auto
next
  case (Cons c cs)
  then show ?case
    by (auto simp: sublist_Cons_right)
qed

lemma replace_first_occurrence:
  "s = pre @ pat @ post \<Longrightarrow>
   (\<forall>pre' post'. s = pre' @ pat @ post' \<longrightarrow> length pre \<le> length pre') \<Longrightarrow>
   replace s pat rep = pre @ rep @ post"
proof (induction pre arbitrary: s)
  case Nil
  then show ?case by (simp add: replace_prefix)
next
  case (Cons c pre)
  have np: "\<not> prefix pat s"
  proof
    assume "prefix pat s"
    then obtain post' where "s = [] @ pat @ post'" by (auto simp: prefix_def)
    with Cons.prems(2) show False by fastforce
  qed
  have "replace (pre @ pat @ post) pat rep = pre @ rep @ post"
  proof (rule Cons.IH [OF refl], intro allI impI)
    fix pre' post' assume "pre @ pat @ post = pre' @ pat @ post'"
    then have "s = (c # pre') @ pat @ post'" using Cons.prems(1) by simp
    with Cons.prems(2) have "length (c # pre) \<le> length (c # pre')" by blast
    then show "length pre \<le> length pre'" by simp
  qed
  with np Cons.prems(1) show ?case by simp
qed


lemma picomatch_valid: "valid_glob glob \<Longrightarrow> picomatch test glob = Inr (test glob)"
  by (simp add: picomatch_def valid_glob_def)

lemma set_keep_matches:
  "set (keep_matches isMatch list keep) = set keep \<union> {f \<in> set list. isMatch f}"
  unfolding keep_matches_def
  by (induction list arbitrary: keep) (auto simp: set_add_def)

lemma distinct_keep_matches:
  "distinct keep \<Longrightarrow> distinct (keep_matches isMatch list keep)"
  unfolding keep_matches_def
  by (induction list arbitrary: keep) (auto simp: set_add_def)

lemma keep_matches_Nil_iff:
  "keep_matches isMatch list [] = [] \<longleftrightarrow> (\<forall>f \<in> set list. \<not> isMatch f)"
proof -
  have "keep_matches isMatch list [] = [] \<longleftrightarrow> set (keep_matches isMatch list []) = {}"
    by simp
  then show ?thesis
    by (auto simp: set_keep_matches)
qed

lemma micromatch_from_valid:
  "\<forall>g \<in> set patterns. valid_glob g \<Longrightarrow>
   \<exists>matched. micromatch_from test list patterns keep = Inr matched \<and>
     set matched = set keep \<union> {f \<in> set list. \<exists>g \<in> set patterns. test g f} \<and>
     (distinct keep \<longrightarrow> distinct matched)"
proof (induction patterns arbitrary: keep)
  case Nil
  then show ?case by simp
next
  case (Cons p ps)
  then have p: "picomatch test p = Inr (test p)"
    by (simp add: picomatch_valid)
  from Cons.prems have "\<forall>g \<in> set ps. valid_glob g"
    by simp
  from Cons.IH [OF this, of "keep_matches (test p) list keep"]
  show ?case
    using p by (auto simp: set_keep_matches distinct_keep_matches)
qed

lemma micromatch_valid:
  "\<forall>g \<in> set patterns. valid_glob g \<Longrightarrow>
   \<exists>matched. micromatch test list patterns = Inr matched \<and> distinct matched \<and>
     set matched = {f \<in> set list. \<exists>g \<in> set patterns. test g f}"
  using micromatch_from_valid [of patterns test list "[]"]
  by (auto simp: micromatch_def)

lemma getFilesForPatterns_single:
  "valid_glob g \<Longrightarrow> getFilesForPatterns test cwd files [g] = Inr (bucket test cwd files g)"
  by (simp add: getFilesForPatterns_def micromatch_def picomatch_valid bucket_def)

lemma bucket_Nil_iff: "bucket test cwd files g = [] \<longleftrightarrow> (\<forall>f \<in> set files. \<not> test g f)"
  by (simp add: bucket_def keep_matches_Nil_iff)

lemma planner_globs_valid:
  "valid_glob ''**/*.{json,yaml}''" "valid_glob ''**/*.html''" "valid_glob ''**/*.rs''"
  "valid_glob ''**/*.{ts,tsx}''" "valid_glob ''**/*.{js,cjs,mjs}''"
  by (simp_all add: valid_glob_def MAX_LENGTH_def)



lemma processStagedFiles_commands:
  "processStagedFiles test cwd files =
     Inr (commands_for
            (bucket test cwd files ''**/*.rs'')
            (bucket test cwd files ''**/*.{json,yaml}'' @ bucket test cwd files ''**/*.html'' @
             bucket test cwd files ''**/*.{ts,tsx}'' @ bucket test cwd files ''**/*.{js,cjs,mjs}'')
            (bucket test cwd files ''**/*.{ts,tsx}'')
            (bucket test cwd files ''**/*.{ts,tsx}'' @ bucket test cwd files ''**/*.{js,cjs,mjs}''))"
  unfolding processStagedFiles_def
  by (simp only: getFilesForPatterns_single planner_globs_valid sum.case Let_def
        commands_for_def length_0_conv append_Nil append_Cons)
     (simp)

subsection \<open>The commands\<close>

lemma command_kinds:
  "cargo_fmt \<noteq> cargo_check" "cargo_fmt \<noteq> prettier xs" "cargo_fmt \<noteq> tsc"
  "cargo_fmt \<noteq> eslint ys" "cargo_check \<noteq> prettier xs" "cargo_check \<noteq> tsc"
  "cargo_check \<noteq> eslint ys" "prettier xs \<noteq> tsc" "prettier xs \<noteq> eslint ys"
  "tsc \<noteq> eslint ys"
  by (simp_all add: cargo_fmt_def cargo_check_def prettier_def tsc_def eslint_def)

lemma command_prefixes:
  "prefix ''pnpm prettier '' (prettier xs)" "prefix ''pnpm eslint '' (eslint ys)"
  "\<not> prefix ''pnpm prettier '' cargo_fmt" "\<not> prefix ''pnpm prettier '' cargo_check"
  "\<not> prefix ''pnpm prettier '' tsc" "\<not> prefix ''pnpm prettier '' (eslint ys)"
  "\<not> prefix ''pnpm eslint '' cargo_fmt" "\<not> prefix ''pnpm eslint '' cargo_check"
  "\<not> prefix ''pnpm eslint '' tsc" "\<not> prefix ''pnpm eslint '' (prettier xs)"
  by (simp_all add: cargo_fmt_def cargo_check_def prettier_def tsc_def eslint_def)

lemma distinct_commands_for: "distinct (commands_for r p t e)"
  by (simp add: commands_for_def command_kinds command_kinds [THEN not_sym])

lemma set_commands_for:
  "cargo_fmt \<in> set (commands_for r p t e) \<longleftrightarrow> r \<noteq> []"
  "cargo_check \<in> set (commands_for r p t e) \<longleftrightarrow> r \<noteq> []"
  "tsc \<in> set (commands_for r p t e) \<longleftrightarrow> t \<noteq> []"
  "prettier p \<in> set (commands_for r p t e) \<longleftrightarrow> p \<noteq> []"
  "eslint e \<in> set (commands_for r p t e) \<longleftrightarrow> e \<noteq> []"
  by (simp_all add: commands_for_def command_kinds command_kinds [THEN not_sym])

lemma filter_commands_for:
  "filter (prefix ''pnpm prettier '') (commands_for r p t e) =
     (if p \<noteq> [] then [prettier p] else [])"
  "filter (prefix ''pnpm eslint '') (commands_for r p t e) =
     (if e \<noteq> [] then [eslint e] else [])"
  by (simp_all add: commands_for_def command_prefixes)

lemma subseq_commands_for:
  "subseq (commands_for r p t e) [cargo_fmt, cargo_check, prettier p, tsc, eslint e]"
  by (simp add: commands_for_def command_kinds command_kinds [THEN not_sym])

lemma cargo_first:
  "r \<noteq> [] \<Longrightarrow> take 2 (commands_for r p t e) = [cargo_fmt, cargo_check]"
  by (simp add: commands_for_def)

subsection \<open>The runtime\<close>





subsection \<open>Evaluating the glob semantics\<close>

lemma compile_planner_globs:
  "compile ''**/*.{json,yaml}'' =
     Some \<lparr>extensions = [''json'', ''yaml''], trailing_slash = False\<rparr>"
  "compile ''**/*.html'' = Some \<lparr>extensions = [''html''], trailing_slash = True\<rparr>"
  "compile ''**/*.rs'' = Some \<lparr>extensions = [''rs''], trailing_slash = True\<rparr>"
  "compile ''**/*.{ts,tsx}'' =
     Some \<lparr>extensions = [''ts'', ''tsx''], trailing_slash = False\<rparr>"
  "compile ''**/*.{js,cjs,mjs}'' =
     Some \<lparr>extensions = [''js'', ''cjs'', ''mjs''], trailing_slash = False\<rparr>"
  by (simp_all add: compile_def word_char_def)

lemmas glob_test_eval = glob_test_def compile_planner_globs basename_def dirname_def
  base_ok_def dir_ok_def line_terminator_def suffix_to_prefix sublist_code

lemmas bucket_eval = bucket_def keep_matches_def set_add_def

text \<open>
  Two staged-file lists used as running examples: the absolute paths of a TypeScript and
  a Rust file under the working directory \<open>/repo\<close>, and the same two files given
  relative to it.
\<close>

lemma repo_buckets:
  "bucket glob_test ''/repo'' [''/repo/src/a.ts'', ''/repo/src/a.rs''] ''**/*.{json,yaml}'' = []"
  "bucket glob_test ''/repo'' [''/repo/src/a.ts'', ''/repo/src/a.rs''] ''**/*.html'' = []"
  "bucket glob_test ''/repo'' [''/repo/src/a.ts'', ''/repo/src/a.rs''] ''**/*.rs'' =
     [''./src/a.rs'']"
  "bucket glob_test ''/repo'' [''/repo/src/a.ts'', ''/repo/src/a.rs''] ''**/*.{ts,tsx}'' =
     [''./src/a.ts'']"
  "bucket glob_test ''/repo'' [''/repo/src/a.ts'', ''/repo/src/a.rs''] ''**/*.{js,cjs,mjs}'' = []"
  by (simp_all add: bucket_eval glob_test_eval)

lemma json_rs_buckets:
  "bucket glob_test ''/repo'' [''/repo/src/main.rs'', ''/repo/package.json''] ''**/*.{json,yaml}'' =
     [''./package.json'']"
  "bucket glob_test ''/repo'' [''/repo/src/main.rs'', ''/repo/package.json''] ''**/*.html'' = []"
  "bucket glob_test ''/repo'' [''/repo/src/main.rs'', ''/repo/package.json''] ''**/*.rs'' =
     [''./src/main.rs'']"
  "bucket glob_test ''/repo'' [''/repo/src/main.rs'', ''/repo/package.json''] ''**/*.{ts,tsx}'' = []"
  "bucket glob_test ''/repo'' [''/repo/src/main.rs'', ''/repo/package.json''] ''**/*.{js,cjs,mjs}'' = []"
  by (simp_all add: bucket_eval glob_test_eval)

lemma scenario_matches:
  "keep_matches (glob_test ''**/*.{json,yaml}'') [''src/a.ts'', ''src/a.rs''] [] = []"
  "keep_matches (glob_test ''**/*.html'') [''src/a.ts'', ''src/a.rs''] [] = []"
  "keep_matches (glob_test ''**/*.rs'') [''src/a.ts'', ''src/a.rs''] [] = [''src/a.rs'']"
  "keep_matches (glob_test ''**/*.{ts,tsx}'') [''src/a.ts'', ''src/a.rs''] [] = [''src/a.ts'']"
  "keep_matches (glob_test ''**/*.{js,cjs,mjs}'') [''src/a.ts'', ''src/a.rs''] [] = []"
  by (simp_all add: keep_matches_def set_add_def glob_test_eval)

section \<open>Specified properties of the planner\<close>

text \<open>
  C1. For every staged-file list (and every working directory and glob semantics), the
  five classification calls and the planner return, and a bucket's command is in the plan
  if and only if the bucket is not empty: the two cargo commands for the rust bucket, a
  prettier invocation for the format targets (data, markup, typed-script and script
  buckets together), the tsc command for the typed-script bucket, and an eslint
  invocation for the lint targets (typed-script and script buckets together).
\<close>

theorem command_iff_bucket_nonempty:
  "\<exists>dataFiles htmlFiles rustFiles typescriptFiles javascriptFiles plan.
     getFilesForPatterns test cwd files [''**/*.{json,yaml}''] = Inr dataFiles \<and>
     getFilesForPatterns test cwd files [''**/*.html''] = Inr htmlFiles \<and>
     getFilesForPatterns test cwd files [''**/*.rs''] = Inr rustFiles \<and>
     getFilesForPatterns test cwd files [''**/*.{ts,tsx}''] = Inr typescriptFiles \<and>
     getFilesForPatterns test cwd files [''**/*.{js,cjs,mjs}''] = Inr javascriptFiles \<and>
     processStagedFiles test cwd files = Inr plan \<and>
     (cargo_fmt \<in> set plan \<longleftrightarrow> rustFiles \<noteq> []) \<and>
     (cargo_check \<in> set plan \<longleftrightarrow> rustFiles \<noteq> []) \<and>
     ((\<exists>c \<in> set plan. prefix ''pnpm prettier '' c) \<longleftrightarrow>
        dataFiles @ htmlFiles @ typescriptFiles @ javascriptFiles \<noteq> []) \<and>
     (tsc \<in> set plan \<longleftrightarrow> typescriptFiles \<noteq> []) \<and>
     ((\<exists>c \<in> set plan. prefix ''pnpm eslint '' c) \<longleftrightarrow>
        typescriptFiles @ javascriptFiles \<noteq> [])"
proof -
  let ?b = "bucket test cwd files"
  let ?pret = "?b ''**/*.{json,yaml}'' @ ?b ''**/*.html'' @ ?b ''**/*.{ts,tsx}'' @
    ?b ''**/*.{js,cjs,mjs}''"
  let ?esl = "?b ''**/*.{ts,tsx}'' @ ?b ''**/*.{js,cjs,mjs}''"
  let ?plan = "commands_for (?b ''**/*.rs'') ?pret (?b ''**/*.{ts,tsx}'') ?esl"
  have ex: "(\<exists>c \<in> set xs. P c) \<longleftrightarrow> filter P xs \<noteq> []" for P and xs :: "string list"
    by (simp add: filter_empty_conv)
  have pret: "(\<exists>c \<in> set ?plan. prefix ''pnpm prettier '' c) \<longleftrightarrow> ?pret \<noteq> []"
    unfolding ex filter_commands_for by simp
  have esl: "(\<exists>c \<in> set ?plan. prefix ''pnpm eslint '' c) \<longleftrightarrow> ?esl \<noteq> []"
    unfolding ex filter_commands_for by simp
  show ?thesis
    apply (intro exI conjI)
              apply (rule getFilesForPatterns_single, rule planner_globs_valid)+
         apply (rule processStagedFiles_commands)
        apply (rule set_commands_for)+
      apply (rule pret)
     apply (rule set_commands_for)
    apply (rule esl)
    done
qed

theorem command_iff_bucket_nonempty_witness:
  "\<exists>plan. processStagedFiles glob_test ''/repo'' [''/repo/src/a.ts'', ''/repo/src/a.rs''] =
       Inr plan \<and>
     cargo_fmt \<in> set plan \<and> cargo_check \<in> set plan \<and> tsc \<in> set plan \<and>
     (\<exists>c \<in> set plan. prefix ''pnpm prettier '' c) \<and>
     (\<exists>c \<in> set plan. prefix ''pnpm eslint '' c)"
  using command_iff_bucket_nonempty
    [of glob_test "''/repo''" "[''/repo/src/a.ts'', ''/repo/src/a.rs'']"]
  by (simp only: getFilesForPatterns_single planner_globs_valid repo_buckets sum.inject) auto

text \<open>
  C2. For every staged-file list the plan is built from the fixed sequence cargo fmt,
  cargo check, prettier invocation, tsc, eslint invocation by leaving out the commands
  of the empty buckets: it is the two cargo commands when the rust bucket is not empty,
  then the prettier invocation when there are format targets, then tsc when the
  typed-script bucket is not empty, then the eslint invocation when there are lint
  targets. So the plan is a subsequence of the fixed sequence, whose five commands are
  distinct, and when a cargo command is present the plan begins with cargo fmt followed
  by cargo check, before every other command.
\<close>

theorem plan_order:
  "\<exists>dataFiles htmlFiles rustFiles typescriptFiles javascriptFiles plan.
     getFilesForPatterns test cwd files [''**/*.{json,yaml}''] = Inr dataFiles \<and>
     getFilesForPatterns test cwd files [''**/*.html''] = Inr htmlFiles \<and>
     getFilesForPatterns test cwd files [''**/*.rs''] = Inr rustFiles \<and>
     getFilesForPatterns test cwd files [''**/*.{ts,tsx}''] = Inr typescriptFiles \<and>
     getFilesForPatterns test cwd files [''**/*.{js,cjs,mjs}''] = Inr javascriptFiles \<and>
     processStagedFiles test cwd files = Inr plan \<and>
     plan =
       (if rustFiles \<noteq> [] then [cargo_fmt, cargo_check] else []) @
       (if dataFiles @ htmlFiles @ typescriptFiles @ javascriptFiles \<noteq> []
        then [prettier (dataFiles @ htmlFiles @ typescriptFiles @ javascriptFiles)] else []) @
       (if typescriptFiles \<noteq> [] then [tsc] else []) @
       (if typescriptFiles @ javascriptFiles \<noteq> []
        then [eslint (typescriptFiles @ javascriptFiles)] else []) \<and>
     subseq plan
       [cargo_fmt, cargo_check,
        prettier (dataFiles @ htmlFiles @ typescriptFiles @ javascriptFiles),
        tsc, eslint (typescriptFiles @ javascriptFiles)] \<and>
     distinct
       [cargo_fmt, cargo_check,
        prettier (dataFiles @ htmlFiles @ typescriptFiles @ javascriptFiles),
        tsc, eslint (typescriptFiles @ javascriptFiles)] \<and>
     (cargo_fmt \<in> set plan \<or> cargo_check \<in> set plan \<longrightarrow>
        take 2 plan = [cargo_fmt, cargo_check])"
proof -
  let ?b = "bucket test cwd files"
  let ?pret = "?b ''**/*.{json,yaml}'' @ ?b ''**/*.html'' @ ?b ''**/*.{ts,tsx}'' @
    ?b ''**/*.{js,cjs,mjs}''"
  let ?esl = "?b ''**/*.{ts,tsx}'' @ ?b ''**/*.{js,cjs,mjs}''"
  let ?plan = "commands_for (?b ''**/*.rs'') ?pret (?b ''**/*.{ts,tsx}'') ?esl"
  have first: "cargo_fmt \<in> set ?plan \<or> cargo_check \<in> set ?plan \<longrightarrow>
        take 2 ?plan = [cargo_fmt, cargo_check]"
    unfolding set_commands_for using cargo_first by blast
  have canonical: "distinct [cargo_fmt, cargo_check, prettier ?pret, tsc, eslint ?esl]"
    by (simp add: command_kinds command_kinds [THEN not_sym])
  show ?thesis
    apply (intro exI conjI)
             apply (rule getFilesForPatterns_single, rule planner_globs_valid)+
        apply (rule processStagedFiles_commands)
       apply (rule commands_for_def)
      apply (rule subseq_commands_for)
     apply (rule canonical)
    apply (rule first)
    done
qed

theorem plan_order_witness:
  "processStagedFiles glob_test ''/repo'' [''/repo/src/main.rs'', ''/repo/package.json''] =
     Inr [cargo_fmt, cargo_check, prettier [''./package.json'']] \<and>
   subseq [cargo_fmt, cargo_check, prettier [''./package.json'']]
     [cargo_fmt, cargo_check, prettier [''./package.json''], tsc, eslint []]"
  using plan_order [of glob_test "''/repo''" "[''/repo/src/main.rs'', ''/repo/package.json'']"]
  by (simp only: getFilesForPatterns_single planner_globs_valid json_rs_buckets sum.inject)
     auto




text \<open>
  C4 (amended). For the staged-file list \<open>["src/a.ts", "src/a.rs"]\<close> and a working
  directory whose name does not occur in \<open>src/a.ts\<close>, the planner returns exactly the
  five-command plan: the rust format command, the rust compile-check command, a prettier
  invocation on \<open>src/a.ts\<close>, the tsc command and an eslint invocation on
  \<open>src/a.ts\<close>, in that order. The path is passed on as it was staged: the rewriting
  step puts \<open>.\<close> in place of the working directory only where the working directory
  occurs.
\<close>

theorem scenario_relative_paths:
  assumes "\<not> sublist cwd ''src/a.ts''"
  shows "processStagedFiles glob_test cwd [''src/a.ts'', ''src/a.rs''] =
           Inr [''cargo fmt --manifest-path=./src-tauri/Cargo.toml'',
                ''cargo check --manifest-path=./src-tauri/Cargo.toml --color=always'',
                ''pnpm prettier --write src/a.ts'',
                ''pnpm tsc --pretty -p ./tsconfig.json'',
                ''pnpm eslint src/a.ts'']"
proof -
  have "replace ''src/a.ts'' cwd ''.'' = ''src/a.ts''"
    using assms by (rule replace_no_occurrence)
  then show ?thesis
    by (simp add: processStagedFiles_commands bucket_def scenario_matches commands_for_def
          cargo_fmt_def cargo_check_def tsc_def prettier_def eslint_def)
qed

theorem scenario_relative_paths_witness:
  "\<not> sublist ''/home/user/project'' ''src/a.ts'' \<and>
   processStagedFiles glob_test ''/home/user/project'' [''src/a.ts'', ''src/a.rs''] =
     Inr [''cargo fmt --manifest-path=./src-tauri/Cargo.toml'',
          ''cargo check --manifest-path=./src-tauri/Cargo.toml --color=always'',
          ''pnpm prettier --write src/a.ts'',
          ''pnpm tsc --pretty -p ./tsconfig.json'',
          ''pnpm eslint src/a.ts'']"
proof -
  have h: "\<not> sublist ''/home/user/project'' ''src/a.ts''"
    by (simp add: sublist_code)
  from h scenario_relative_paths [OF h] show ?thesis
    by (rule conjI)
qed

text \<open>
  C4 as stated fails: in the working directory \<open>/home/user/project\<close> the plan for
  \<open>["src/a.ts", "src/a.rs"]\<close> is not the one with \<open>./src/a.ts\<close> as the argument of
  prettier and eslint.
\<close>

theorem scenario_dot_slash_counterexample:
  "processStagedFiles glob_test ''/home/user/project'' [''src/a.ts'', ''src/a.rs''] \<noteq>
     Inr [''cargo fmt --manifest-path=./src-tauri/Cargo.toml'',
          ''cargo check --manifest-path=./src-tauri/Cargo.toml --color=always'',
          ''pnpm prettier --write ./src/a.ts'',
          ''pnpm tsc --pretty -p ./tsconfig.json'',
          ''pnpm eslint ./src/a.ts'']"
  by (simp add: processStagedFiles_commands bucket_def scenario_matches commands_for_def
        cargo_fmt_def cargo_check_def tsc_def prettier_def eslint_def)

text \<open>
  C5. For every staged-file list, the prettier invocations of the plan are: exactly one
  when the format targets are not empty, which is \<open>pnpm prettier --write\<close> followed by
  the paths of the data, markup, typed-script and script buckets, in that order, joined by
  single spaces; and none otherwise. Likewise the eslint invocations are exactly
  \<open>pnpm eslint\<close> followed by the typed-script and script paths joined by single spaces
  when there are lint targets, and none otherwise.
\<close>

theorem formatter_and_lint_arguments:
  "\<exists>dataFiles htmlFiles typescriptFiles javascriptFiles plan.
     getFilesForPatterns test cwd files [''**/*.{json,yaml}''] = Inr dataFiles \<and>
     getFilesForPatterns test cwd files [''**/*.html''] = Inr htmlFiles \<and>
     getFilesForPatterns test cwd files [''**/*.{ts,tsx}''] = Inr typescriptFiles \<and>
     getFilesForPatterns test cwd files [''**/*.{js,cjs,mjs}''] = Inr javascriptFiles \<and>
     processStagedFiles test cwd files = Inr plan \<and>
     filter (prefix ''pnpm prettier '') plan =
       (if dataFiles @ htmlFiles @ typescriptFiles @ javascriptFiles \<noteq> []
        then [''pnpm prettier --write '' @
                join (dataFiles @ htmlFiles @ typescriptFiles @ javascriptFiles) '' '']
        else []) \<and>
     filter (prefix ''pnpm eslint '') plan =
       (if typescriptFiles @ javascriptFiles \<noteq> []
        then [''pnpm eslint '' @ join (typescriptFiles @ javascriptFiles) '' '']
        else [])"
  apply (intro exI conjI)
        apply (rule getFilesForPatterns_single, rule planner_globs_valid)+
    apply (rule processStagedFiles_commands)
   apply (simp only: filter_commands_for prettier_def)
  apply (simp only: filter_commands_for eslint_def)
  done

theorem formatter_and_lint_arguments_witness:
  "\<exists>plan. processStagedFiles glob_test ''/repo''
       [''/repo/src/a.ts'', ''/repo/b.json'', ''/repo/c.js'', ''/repo/d.html''] = Inr plan \<and>
     filter (prefix ''pnpm prettier '') plan =
       [''pnpm prettier --write ./b.json ./d.html ./src/a.ts ./c.js''] \<and>
     filter (prefix ''pnpm eslint '') plan = [''pnpm eslint ./src/a.ts ./c.js'']"
proof -
  let ?files = "[''/repo/src/a.ts'', ''/repo/b.json'', ''/repo/c.js'', ''/repo/d.html'']"
  have b: "bucket glob_test ''/repo'' ?files ''**/*.{json,yaml}'' = [''./b.json'']"
    "bucket glob_test ''/repo'' ?files ''**/*.html'' = [''./d.html'']"
    "bucket glob_test ''/repo'' ?files ''**/*.{ts,tsx}'' = [''./src/a.ts'']"
    "bucket glob_test ''/repo'' ?files ''**/*.{js,cjs,mjs}'' = [''./c.js'']"
    by (simp_all add: bucket_eval glob_test_eval)
  from formatter_and_lint_arguments [of glob_test "''/repo''" ?files]
  show ?thesis
    by (simp only: getFilesForPatterns_single planner_globs_valid b sum.inject) auto
qed

text \<open>
  C6. For every staged-file list in which no path matches any of the five globs, every
  bucket is empty and the planner returns the empty plan. This covers the empty list,
  for every glob semantics, and the list \<open>["README.md"]\<close>, which none of the five
  globs accepts.
\<close>

theorem unmatched_paths_empty_plan:
  "((\<forall>f \<in> set files. \<forall>g \<in> set planner_globs. \<not> test g f) \<longrightarrow>
      (\<forall>g \<in> set planner_globs. getFilesForPatterns test cwd files [g] = Inr []) \<and>
      processStagedFiles test cwd files = Inr []) \<and>
   processStagedFiles test cwd [] = Inr [] \<and>
   (\<forall>g \<in> set planner_globs. \<not> glob_test g ''README.md'') \<and>
   processStagedFiles glob_test cwd [''README.md''] = Inr []"
proof -
  have none: "(\<forall>g \<in> set planner_globs. getFilesForPatterns test' cwd fs [g] = Inr []) \<and>
      processStagedFiles test' cwd fs = Inr []"
    if "\<forall>f \<in> set fs. \<forall>g \<in> set planner_globs. \<not> test' g f" for test' fs
  proof -
    from that have "bucket test' cwd fs g = []" if "g \<in> set planner_globs" for g
      using that by (simp add: bucket_Nil_iff)
    then have b: "bucket test' cwd fs ''**/*.{json,yaml}'' = []"
      "bucket test' cwd fs ''**/*.html'' = []" "bucket test' cwd fs ''**/*.rs'' = []"
      "bucket test' cwd fs ''**/*.{ts,tsx}'' = []"
      "bucket test' cwd fs ''**/*.{js,cjs,mjs}'' = []"
      by (simp_all add: planner_globs_def)
    show ?thesis
      by (simp add: processStagedFiles_commands b commands_for_def planner_globs_def
            getFilesForPatterns_single planner_globs_valid)
  qed
  have readme: "\<forall>g \<in> set planner_globs. \<not> glob_test g ''README.md''"
    by (simp add: planner_globs_def glob_test_eval)
  from none [of "[]" test] have "processStagedFiles test cwd [] = Inr []"
    by simp
  moreover from none [of "[''README.md'']" glob_test] readme
  have "processStagedFiles glob_test cwd [''README.md''] = Inr []"
    by simp
  ultimately show ?thesis
    using none [of files test] readme by blast
qed

theorem unmatched_paths_empty_plan_witness:
  "list_all (\<lambda>f. list_all (\<lambda>g. \<not> glob_test g f) planner_globs)
     [''README.md'', ''LICENSE'', ''.eslintrc.json''] \<and>
   processStagedFiles glob_test ''/repo'' [''README.md'', ''LICENSE'', ''.eslintrc.json''] =
     Inr []"
proof -
  have h: "\<forall>f \<in> set [''README.md'', ''LICENSE'', ''.eslintrc.json''].
      \<forall>g \<in> set planner_globs. \<not> glob_test g f"
    by (simp add: planner_globs_def glob_test_eval)
  with unmatched_paths_empty_plan
    [of "[''README.md'', ''LICENSE'', ''.eslintrc.json'']" glob_test "''/repo''"]
  show ?thesis
    unfolding list_all_iff by blast
qed

text \<open>
  C7. Two runs of the planner on equal staged-file lists, in one working directory and
  with one glob semantics, both return, and they return the same plan.
\<close>

theorem plan_deterministic:
  "stagedFiles1 = stagedFiles2 \<Longrightarrow>
   \<exists>plan. processStagedFiles test cwd stagedFiles1 = Inr plan \<and>
          processStagedFiles test cwd stagedFiles2 = Inr plan"
  by (simp add: processStagedFiles_commands)

theorem plan_deterministic_witness:
  "[''/repo/src/a.ts'', ''/repo/src/a.rs''] = [''/repo/src/a.ts'', ''/repo/src/a.rs''] \<and>
   (\<exists>plan.
      processStagedFiles glob_test ''/repo'' [''/repo/src/a.ts'', ''/repo/src/a.rs''] =
        Inr plan \<and>
      processStagedFiles glob_test ''/repo'' [''/repo/src/a.ts'', ''/repo/src/a.rs''] =
        Inr plan)"
  using plan_deterministic
    [of "[''/repo/src/a.ts'', ''/repo/src/a.rs'']" "[''/repo/src/a.ts'', ''/repo/src/a.rs'']"
      glob_test "''/repo''"]
  by blast

text \<open>
  C8. For every staged-file list, the commands of the plan are pairwise distinct.
\<close>

theorem plan_distinct:
  "\<exists>plan. processStagedFiles test cwd files = Inr plan \<and> distinct plan"
  by (simp add: processStagedFiles_commands distinct_commands_for)

theorem plan_distinct_witness:
  "\<exists>plan. processStagedFiles glob_test ''/repo'' [''/repo/src/a.ts'', ''/repo/src/a.rs''] =
       Inr plan \<and> distinct plan"
  using plan_distinct [of glob_test "''/repo''" "[''/repo/src/a.ts'', ''/repo/src/a.rs'']"]
  by blast




text \<open>
  C10. For every file list and every group of patterns that micromatch compiles, the
  list returned by \<open>getFilesForPatterns\<close> is the list of matched paths, position by
  position, where a path in which the working directory does not occur is unchanged, and
  a path in which it occurs has its first occurrence replaced by \<open>.\<close>, wherever that
  occurrence is: for every split \<open>pre @ cwd @ post\<close> of the path with the shortest
  possible \<open>pre\<close>, the result is \<open>pre @ "." @ post\<close>, whether \<open>pre\<close> is empty or not.
\<close>

theorem rewrite_first_occurrence:
  assumes "\<forall>g \<in> set patterns. valid_glob g"
  shows "\<exists>matched out.
           micromatch test files patterns = Inr matched \<and>
           getFilesForPatterns test cwd files patterns = Inr out \<and>
           length out = length matched \<and>
           (\<forall>i < length matched.
              (\<not> sublist cwd (matched ! i) \<longrightarrow> out ! i = matched ! i) \<and>
              (\<forall>pre post.
                 matched ! i = pre @ cwd @ post \<and>
                 (\<forall>pre' post'. matched ! i = pre' @ cwd @ post' \<longrightarrow>
                    length pre \<le> length pre')
                 \<longrightarrow> out ! i = pre @ ''.'' @ post))"
proof -
  from micromatch_valid [OF assms, of test files] obtain matched where
    m: "micromatch test files patterns = Inr matched"
    by blast
  let ?out = "map (\<lambda>path. replace path cwd ''.'') matched"
  have out: "getFilesForPatterns test cwd files patterns = Inr ?out"
    by (simp add: getFilesForPatterns_def m)
  have len: "length ?out = length matched"
    by simp
  have each: "\<forall>i < length matched.
      (\<not> sublist cwd (matched ! i) \<longrightarrow> ?out ! i = matched ! i) \<and>
      (\<forall>pre post.
         matched ! i = pre @ cwd @ post \<and>
         (\<forall>pre' post'. matched ! i = pre' @ cwd @ post' \<longrightarrow> length pre \<le> length pre')
         \<longrightarrow> ?out ! i = pre @ ''.'' @ post)"
  proof (intro allI impI conjI)
    fix i assume "i < length matched" "\<not> sublist cwd (matched ! i)"
    then show "?out ! i = matched ! i"
      by (simp add: replace_no_occurrence)
  next
    fix i pre post
    assume i: "i < length matched"
      and occ: "matched ! i = pre @ cwd @ post \<and>
        (\<forall>pre' post'. matched ! i = pre' @ cwd @ post' \<longrightarrow> length pre \<le> length pre')"
    from occ have "replace (matched ! i) cwd ''.'' = pre @ ''.'' @ post"
      by (intro replace_first_occurrence) blast+
    with i show "?out ! i = pre @ ''.'' @ post"
      by simp
  qed
  show ?thesis
    by (rule exI [of _ matched], rule exI [of _ ?out], intro conjI, rule m, rule out, rule len,
        rule each)
qed

theorem rewrite_first_occurrence_witness:
  "valid_glob ''**/*.rs'' \<and>
   getFilesForPatterns glob_test ''/w'' [''/x/w/a.rs''] [''**/*.rs''] = Inr [''/x./a.rs'']"
proof -
  have v: "\<forall>g \<in> set [''**/*.rs'']. valid_glob g"
    by (simp add: planner_globs_valid)
  have t: "glob_test ''**/*.rs'' ''/x/w/a.rs''"
    by (simp add: glob_test_eval)
  have m: "micromatch glob_test [''/x/w/a.rs''] [''**/*.rs''] = Inr [''/x/w/a.rs'']"
    by (simp add: micromatch_def picomatch_valid planner_globs_valid keep_matches_def
          set_add_def t)
  have first: "\<forall>pre' post'. ''/x/w/a.rs'' = pre' @ ''/w'' @ post' \<longrightarrow>
      length ''/x'' \<le> length pre'"
  proof (intro allI impI)
    fix pre' post' :: string
    assume e: "''/x/w/a.rs'' = pre' @ ''/w'' @ post'"
    show "length ''/x'' \<le> length pre'"
    proof (rule ccontr)
      assume "\<not> length ''/x'' \<le> length pre'"
      then have "length pre' < 2" by simp
      then have "length pre' = 0 \<or> length pre' = 1" by arith
      then show False
      proof
        assume "length pre' = 0"
        with e show False by simp
      next
        assume "length pre' = 1"
        then obtain c where "pre' = [c]" by (cases pre') auto
        with e show False by simp
      qed
    qed
  qed
  from rewrite_first_occurrence [OF v, of glob_test "[''/x/w/a.rs'']" "''/w''"] obtain out where
    o: "getFilesForPatterns glob_test ''/w'' [''/x/w/a.rs''] [''**/*.rs''] = Inr out"
    and l: "length out = 1"
    and r: "\<forall>pre post. ''/x/w/a.rs'' = pre @ ''/w'' @ post \<and>
             (\<forall>pre' post'. ''/x/w/a.rs'' = pre' @ ''/w'' @ post' \<longrightarrow>
                length pre \<le> length pre')
             \<longrightarrow> out ! 0 = pre @ ''.'' @ post"
    unfolding m by (auto simp del: append_eq_Cons_conv Cons_eq_append_conv)
  from r [rule_format, of "''/x''" "''/a.rs''"] first have "out ! 0 = ''/x./a.rs''"
    by simp
  with l have "out = [''/x./a.rs'']"
    by (cases out) auto
  with o planner_globs_valid(3) show ?thesis
    by simp
qed

end
